theory Spec2Isabelle
  imports Complex_Main
begin

section \<open>Square Transport website: the client-side interaction layer\<close>

text \<open>
  The development embeds the two scripts of the site: the class \<open>SquareWebsite\<close>
  (navigation, scroll reveal, data hydration, notifications, counters) and the class
  \<open>SquareAnimations\<close> (the GSAP-driven timeline engine). The DOM is the state: every
  element the code reads or writes is a field of a record, and every handler is a
  function from state to state. Exceptions are values of the type \<open>error\<close>.
\<close>

datatype error = TypeError | ReferenceError | NotFoundError | SyntaxError

subsection \<open>Navigation: the mobile menu (\<open>setupNavigation\<close>)\<close>

text \<open>
  The part of the DOM the two click handlers of \<open>setupNavigation\<close> touch, for a page
  that has both \<open>#nav-toggle\<close> and \<open>#nav-mobile\<close> (the handlers are registered only
  then): whether the toggle carries \<open>nav__toggle--active\<close>, whether the menu carries
  \<open>nav__menu--open\<close>, the toggle's \<open>aria-expanded\<close> attribute (\<open>None\<close> while it was
  never set) and \<open>document.body.style.overflow\<close>.
\<close>

record nav_dom =
  toggleActive :: bool
  menuOpen :: bool
  ariaExpanded :: "string option"
  bodyOverflow :: string

text \<open>\<open>setAttribute('aria-expanded', isOpen)\<close> stores the string of the boolean.\<close>

definition boolString :: "bool \<Rightarrow> string" where
  "boolString b = (if b then ''true'' else ''false'')"

text \<open>
  The click handler of the toggle. \<open>classList.toggle\<close> flips the class and returns
  whether it is now present; the two classes are flipped independently of each other.
\<close>

definition toggleClick :: "nav_dom \<Rightarrow> nav_dom" where
  "toggleClick d =
     (let isOpen = \<not> toggleActive d
      in d\<lparr>toggleActive := isOpen,
            menuOpen := \<not> menuOpen d,
            ariaExpanded := Some (boolString isOpen),
            bodyOverflow := (if isOpen then ''hidden'' else '''')\<rparr>)"

text \<open>The click handler of every link inside the mobile menu.\<close>

definition menuLinkClick :: "nav_dom \<Rightarrow> nav_dom" where
  "menuLinkClick d =
     d\<lparr>toggleActive := False,
        menuOpen := False,
        ariaExpanded := Some ''false'',
        bodyOverflow := ''''\<rparr>"

subsection \<open>Notifications (\<open>showNotification\<close>)\<close>

text \<open>
  A notification element: its identity (the DOM object, here a number drawn from a
  counter of the page), its class name, the \<open>background\<close> and \<open>animation\<close> declarations
  of its inline style (the other declarations of \<open>cssText\<close> are constants that nothing
  reads or changes) and its text.
\<close>

record notification =
  nid :: nat
  className :: string
  background :: string
  animation :: string
  message :: string

text \<open>The two callbacks \<open>showNotification\<close> hands to \<open>setTimeout\<close>.\<close>

datatype timer_action = BeginExit nat | RemoveChild nat

text \<open>
  The page as the notification code sees it: the clock in milliseconds, the children
  of \<open>document.body\<close> that are notifications, the pending timers with the time each is
  due (in registration order), the next free identity, and the exceptions that escaped
  a timer callback.
\<close>

record page =
  clock :: nat
  body :: "notification list"
  timers :: "(nat \<times> timer_action) list"
  nextId :: nat
  uncaught :: "error list"

text \<open>The default parameter \<open>type = 'info'\<close>: \<open>None\<close> is the omitted argument.\<close>

definition severity :: "string option \<Rightarrow> string" where
  "severity ty = (case ty of None \<Rightarrow> ''info'' | Some s \<Rightarrow> s)"

definition newNotification :: "nat \<Rightarrow> string \<Rightarrow> string option \<Rightarrow> notification" where
  "newNotification i msg ty =
     \<lparr>nid = i,
      className = ''notification notification--'' @ severity ty,
      background = (if severity ty = ''success'' then ''var(--color-success)''
                    else ''var(--color-error)''),
      animation = ''slideInRight 0.3s ease-out'',
      message = msg\<rparr>"

definition showNotification :: "string \<Rightarrow> string option \<Rightarrow> page \<Rightarrow> page" where
  "showNotification msg ty p =
     p\<lparr>body := body p @ [newNotification (nextId p) msg ty],
        timers := timers p @ [(clock p + 5000, BeginExit (nextId p))],
        nextId := Suc (nextId p)\<rparr>"

subsection \<open>Numbers and their strings\<close>

text \<open>
  A JavaScript number is \<open>NaN\<close> or a finite value; the infinities (which \<open>parseInt\<close>
  returns only for a run of more than 308 digits) are left out. Finite values are
  rationals, and the rounding of the host's binary64 arithmetic is a parameter \<open>rnd\<close>
  of every operation that rounds: the result of an operation is the rounded exact
  result. The identity is exact arithmetic.
\<close>

datatype jsnum = NaN | Fin rat

definition jsAdd :: "(rat \<Rightarrow> rat) \<Rightarrow> jsnum \<Rightarrow> jsnum \<Rightarrow> jsnum" where
  "jsAdd rnd a b =
     (case a of NaN \<Rightarrow> NaN
      | Fin x \<Rightarrow> (case b of NaN \<Rightarrow> NaN | Fin y \<Rightarrow> Fin (rnd (x + y))))"

text \<open>Division by a literal divisor other than zero (the code divides by 60 only).\<close>

definition jsDiv :: "(rat \<Rightarrow> rat) \<Rightarrow> jsnum \<Rightarrow> rat \<Rightarrow> jsnum" where
  "jsDiv rnd a d = (case a of NaN \<Rightarrow> NaN | Fin x \<Rightarrow> Fin (rnd (x / d)))"

text \<open>\<open>a >= b\<close>: false as soon as one side is \<open>NaN\<close>.\<close>

definition jsGe :: "jsnum \<Rightarrow> jsnum \<Rightarrow> bool" where
  "jsGe a b =
     (case a of NaN \<Rightarrow> False
      | Fin x \<Rightarrow> (case b of NaN \<Rightarrow> False | Fin y \<Rightarrow> y \<le> x))"


text \<open>The decimal digits of an integer, as \<open>String(n)\<close> prints one below \<open>10\<^sup>2\<^sup>1\<close>.\<close>

definition digitChar :: "nat \<Rightarrow> char" where
  "digitChar d = ''0123456789'' ! d"

fun showNat :: "nat \<Rightarrow> string" where
  "showNat n = (if n < 10 then [digitChar n] else showNat (n div 10) @ [digitChar (n mod 10)])"

definition showInt :: "int \<Rightarrow> string" where
  "showInt i = (if i < 0 then CHR ''-'' # showNat (nat (- i)) else showNat (nat i))"

text \<open>The string of \<open>Math.floor(x)\<close>, as a concatenation or an assignment to text makes it.\<close>

definition floorText :: "jsnum \<Rightarrow> string" where
  "floorText a = (case a of NaN \<Rightarrow> ''NaN'' | Fin x \<Rightarrow> showInt \<lfloor>x\<rfloor>)"

subsection \<open>\<open>parseInt\<close> without a radix\<close>

text \<open>
  \<open>parseInt(s)\<close> skips leading white space (the ASCII white space here), reads a sign,
  takes radix 16 after a prefix \<open>0x\<close> or \<open>0X\<close> and radix 10 otherwise, and reads the
  longest run of digits of that radix; with no digit the result is \<open>NaN\<close>. The integer
  is read exactly (the host rounds one of more than 53 bits to the nearest binary64).
\<close>

definition isWhiteSpace :: "char \<Rightarrow> bool" where
  "isWhiteSpace c \<longleftrightarrow> (of_char c :: nat) \<in> {9, 10, 11, 12, 13, 32}"

definition digitValue :: "char \<Rightarrow> nat option" where
  "digitValue c =
     (let n = (of_char c :: nat)
      in if 48 \<le> n \<and> n \<le> 57 then Some (n - 48)
         else if 97 \<le> n \<and> n \<le> 122 then Some (n - 87)
         else if 65 \<le> n \<and> n \<le> 90 then Some (n - 55)
         else None)"

definition isDigit :: "nat \<Rightarrow> char \<Rightarrow> bool" where
  "isDigit r c = (case digitValue c of None \<Rightarrow> False | Some v \<Rightarrow> v < r)"

definition digitsValue :: "nat \<Rightarrow> string \<Rightarrow> nat" where
  "digitsValue r ds =
     foldl (\<lambda>acc c. case digitValue c of None \<Rightarrow> acc | Some v \<Rightarrow> acc * r + v) 0 ds"

definition parseDigits :: "nat \<Rightarrow> string \<Rightarrow> nat option" where
  "parseDigits r s =
     (let ds = takeWhile (isDigit r) s
      in if ds = [] then None else Some (digitsValue r ds))"

definition parseUnsigned :: "string \<Rightarrow> nat option" where
  "parseUnsigned s =
     (if take 2 s = ''0x'' \<or> take 2 s = ''0X'' then parseDigits 16 (drop 2 s)
      else parseDigits 10 s)"

definition parseInt :: "string \<Rightarrow> jsnum" where
  "parseInt s =
     (let t = dropWhile isWhiteSpace s;
          neg = (take 1 t = ''-'');
          u = (if take 1 t = ''-'' \<or> take 1 t = ''+'' then drop 1 t else t)
      in case parseUnsigned u of
           None \<Rightarrow> NaN
         | Some n \<Rightarrow> Fin (if neg then - of_nat n else of_nat n))"

subsection \<open>The counter animation (\<open>setupCounterAnimations\<close>)\<close>

text \<open>A counter element: its \<open>data-target\<close> attribute and its text.\<close>

record counter_el =
  dataTarget :: string
  counterText :: string

text \<open>
  A started counter: the element, the three variables of the closure of \<open>startCounter\<close>
  and whether the interval timer is still registered.
\<close>

record counter_anim = counter_el +
  target :: jsnum
  increment :: jsnum
  current :: jsnum
  intervalActive :: bool

definition startCounter :: "(rat \<Rightarrow> rat) \<Rightarrow> counter_el \<Rightarrow> counter_anim" where
  "startCounter rnd el =
     \<lparr>dataTarget = dataTarget el,
      counterText = counterText el,
      target = parseInt (dataTarget el),
      increment = jsDiv rnd (parseInt (dataTarget el)) 60,
      current = Fin 0,
      intervalActive = True\<rparr>"

text \<open>
  One run of the interval callback: add the increment, clamp and clear the timer at
  the target, then write the floor of the value in the format the current text shows.
\<close>

definition tick :: "(rat \<Rightarrow> rat) \<Rightarrow> counter_anim \<Rightarrow> counter_anim" where
  "tick rnd c =
     (let cur = jsAdd rnd (current c) (increment c);
          hit = jsGe cur (target c);
          cur' = (if hit then target c else cur);
          txt = counterText c
      in c\<lparr>current := cur',
            intervalActive := (if hit then False else intervalActive c),
            counterText :=
              (if CHR ''%'' \<in> set txt then floorText cur' @ ''%''
               else if CHR ''M'' \<in> set txt then ''$'' @ floorText cur' @ ''M''
               else floorText cur')\<rparr>)"

text \<open>
  The host runs the callback every 50 ms while the timer is registered:
  \<open>runInterval rnd n c\<close> lists the states after each run of the callback during the
  first \<open>n\<close> periods.
\<close>

fun runInterval :: "(rat \<Rightarrow> rat) \<Rightarrow> nat \<Rightarrow> counter_anim \<Rightarrow> counter_anim list" where
  "runInterval rnd 0 c = []"
| "runInterval rnd (Suc n) c =
     (if intervalActive c then tick rnd c # runInterval rnd n (tick rnd c) else [])"

text \<open>
  The three formats, how each renders the digits, and the format the callback of
  \<open>startCounter\<close> reads off a text: a \<open>%\<close> anywhere makes it a percentage, otherwise an
  \<open>M\<close> anywhere makes it currency-millions.
\<close>

datatype format = Percentage | CurrencyMillions | PlainInteger

definition render :: "format \<Rightarrow> string \<Rightarrow> string" where
  "render f ds =
     (case f of Percentage \<Rightarrow> ds @ ''%''
      | CurrencyMillions \<Rightarrow> ''$'' @ ds @ ''M''
      | PlainInteger \<Rightarrow> ds)"

definition counterFormat :: "string \<Rightarrow> format" where
  "counterFormat txt =
     (if CHR ''%'' \<in> set txt then Percentage
      else if CHR ''M'' \<in> set txt then CurrencyMillions
      else PlainInteger)"

text \<open>
  The branch \<open>animateStats\<close> takes for a statistic (animations.js): a \<open>%\<close> anywhere
  makes it a percentage, otherwise a \<open>$\<close> anywhere makes it currency-millions. Each
  branch parses its own number and returns early on \<open>NaN\<close> (\<open>None\<close> here); otherwise it
  starts a tween to that number with the delay of the branch.
\<close>

definition statFormat :: "string \<Rightarrow> format" where
  "statFormat endValue =
     (if CHR ''%'' \<in> set endValue then Percentage
      else if CHR ''$'' \<in> set endValue then CurrencyMillions
      else PlainInteger)"

definition digitsOnly :: "string \<Rightarrow> string" where
  "digitsOnly s = filter (isDigit 10) s"

definition statTween :: "string \<Rightarrow> (format \<times> rat \<times> rat) option" where
  "statTween endValue =
     (if CHR ''%'' \<in> set endValue then
        (case parseInt (remove1 CHR ''%'' endValue) of
           NaN \<Rightarrow> None | Fin v \<Rightarrow> Some (Percentage, v, 1 / 2))
      else if CHR ''$'' \<in> set endValue then
        (case parseInt (digitsOnly endValue) of
           NaN \<Rightarrow> None | Fin v \<Rightarrow> Some (CurrencyMillions, v, 7 / 10))
      else
        (case parseInt (digitsOnly endValue) of
           NaN \<Rightarrow> None | Fin v \<Rightarrow> Some (PlainInteger, v, 3 / 10)))"

text \<open>
  The format as the specification words it: a percentage with a \<open>%\<close>, currency-millions
  with both a \<open>$\<close> and an \<open>M\<close>, a plain integer otherwise.
\<close>

definition specFormat :: "string \<Rightarrow> format" where
  "specFormat txt =
     (if CHR ''%'' \<in> set txt then Percentage
      else if CHR ''$'' \<in> set txt \<and> CHR ''M'' \<in> set txt then CurrencyMillions
      else PlainInteger)"

subsection \<open>Navigation: the active link (\<open>updateActiveNavigation\<close>)\<close>





subsection \<open>Scroll reveal (\<open>setupScrollReveal\<close>)\<close>

text \<open>The options the observer is created with.\<close>

record observer_options =
  threshold :: rat
  rootMargin :: string

definition observerOptions :: observer_options where
  "observerOptions = \<lparr>threshold = 1 / 10, rootMargin = ''0px 0px -50px 0px''\<rparr>"

text \<open>
  A reveal target: whether it carries \<open>scroll-reveal--visible\<close>, the number that
  \<open>dataset.stagger || 0\<close> stands for in the comparison and the product, and the stagger
  its \<open>transitionDelay\<close> was last computed from (the delay is a tenth of it, in
  seconds), if it was set.
\<close>

record reveal_el =
  revealed :: bool
  stagger :: jsnum
  delayFrom :: "rat option"

text \<open>
  The elements of class \<open>scroll-reveal\<close>, in document order, and the positions of those
  the observer observes.
\<close>

record reveal_state =
  elements :: "reveal_el list"
  observed :: "nat list"

text \<open>An entry the host hands to the callback: the position of its target and its flag.\<close>

record entry =
  entryTarget :: nat
  isIntersecting :: bool

definition setupScrollReveal :: "reveal_el list \<Rightarrow> reveal_state" where
  "setupScrollReveal els = \<lparr>elements = els, observed = [0..<length els]\<rparr>"

definition revealElement :: "reveal_el \<Rightarrow> reveal_el" where
  "revealElement el =
     (case stagger el of
        NaN \<Rightarrow> el\<lparr>revealed := True\<rparr>
      | Fin s \<Rightarrow> if 0 < s then el\<lparr>revealed := True, delayFrom := Some s\<rparr>
                 else el\<lparr>revealed := True\<rparr>)"

text \<open>
  The body of the callback for one entry. The host reports entries of observed
  elements only; an entry for a position the page does not have changes nothing.
\<close>

definition onEntry :: "reveal_state \<Rightarrow> entry \<Rightarrow> reveal_state" where
  "onEntry st e =
     (if isIntersecting e \<and> entryTarget e < length (elements st)
      then st\<lparr>elements := (elements st)[entryTarget e := revealElement (elements st ! entryTarget e)]\<rparr>
      else st)"

definition observerCallback :: "entry list \<Rightarrow> reveal_state \<Rightarrow> reveal_state" where
  "observerCallback entries st = foldl onEntry st entries"

subsection \<open>Notifications: the timers\<close>

text \<open>
  \<open>document.body.removeChild(notification)\<close>: the child is taken out, and the call
  throws when the element is no child of the body.
\<close>

definition removeChild :: "nat \<Rightarrow> notification list \<Rightarrow> notification list option" where
  "removeChild i ns =
     (if i \<in> nid ` set ns then Some (filter (\<lambda>n. nid n \<noteq> i) ns) else None)"

definition setAnimation :: "nat \<Rightarrow> string \<Rightarrow> notification list \<Rightarrow> notification list" where
  "setAnimation i a ns = map (\<lambda>n. if nid n = i then n\<lparr>animation := a\<rparr> else n) ns"

text \<open>
  A timer callback runs. The outer one starts the exit animation and registers the
  inner one 300 ms later; the inner one removes the element.
\<close>

definition fire :: "timer_action \<Rightarrow> page \<Rightarrow> page" where
  "fire a p =
     (case a of
        BeginExit i \<Rightarrow>
          p\<lparr>body := setAnimation i ''slideOutRight 0.3s ease-in forwards'' (body p),
             timers := timers p @ [(clock p + 300, RemoveChild i)]\<rparr>
      | RemoveChild i \<Rightarrow>
          (case removeChild i (body p) of
             None \<Rightarrow> p\<lparr>uncaught := uncaught p @ [NotFoundError]\<rparr>
           | Some ns \<Rightarrow> p\<lparr>body := ns\<rparr>))"

text \<open>
  The timer the host runs next among those due at \<open>t\<close> or before: the one due first,
  and of those due at the same time the one registered first.
\<close>

fun earliest :: "nat \<Rightarrow> (nat \<times> timer_action) list \<Rightarrow> (nat \<times> timer_action) option" where
  "earliest t [] = None"
| "earliest t (x # xs) =
     (case earliest t xs of
        None \<Rightarrow> if fst x \<le> t then Some x else None
      | Some y \<Rightarrow> if fst x \<le> t \<and> fst x \<le> fst y then Some x else Some y)"

fun weight :: "nat \<times> timer_action \<Rightarrow> nat" where
  "weight (d, BeginExit i) = 2"
| "weight (d, RemoveChild i) = 1"

text \<open>
  The host's event loop up to time \<open>t\<close>, each timer running at the time it is due:
  the timers due by \<open>t\<close> run in order, those a callback registers included, and the
  clock ends at \<open>t\<close>.
\<close>

function run_until :: "nat \<Rightarrow> page \<Rightarrow> page" where
  "run_until t p =
     (case earliest t (timers p) of
        None \<Rightarrow> p\<lparr>clock := max (clock p) t\<rparr>
      | Some x \<Rightarrow>
          run_until t
            (fire (snd x) (p\<lparr>clock := max (clock p) (fst x), timers := remove1 x (timers p)\<rparr>)))"
  by pat_completeness auto
termination
proof (relation "measure (\<lambda>(t, p). sum_list (map weight (timers p)))")
  show "wf (measure (\<lambda>(t, p). sum_list (map weight (timers p))))" by simp
next
  fix t :: nat and p :: page and x :: "nat \<times> timer_action"
  assume e: "earliest t (timers p) = Some x"
  have "y \<in> set xs" if "earliest t xs = Some y" for y xs
    using that by (induction xs arbitrary: y) (auto split: option.splits if_splits)
  from this [OF e] have m: "x \<in> set (timers p)" .
  have "sum_list (map weight (remove1 y xs)) + weight y = sum_list (map weight xs)"
    if "y \<in> set xs" for y xs
    using that by (induction xs) auto
  from this [OF m] have "sum_list (map weight (remove1 x (timers p))) + weight x
      = sum_list (map weight (timers p))" .
  moreover obtain d a where x: "x = (d, a)" by (cases x)
  ultimately show "((t, fire (snd x) (p\<lparr>clock := max (clock p) (fst x), timers := remove1 x (timers p)\<rparr>)), t, p)
        \<in> measure (\<lambda>(t, p). sum_list (map weight (timers p)))"
    by (cases a) (auto simp: fire_def split: option.splits)
qed

text \<open>Where a notification stands: in its entrance, in its exit, or off the page.\<close>

datatype stage = Entering | Exiting | Removed

definition stage_of :: "nat \<Rightarrow> page \<Rightarrow> stage" where
  "stage_of i p =
     (case find (\<lambda>n. nid n = i) (body p) of
        None \<Rightarrow> Removed
      | Some n \<Rightarrow> if animation n = ''slideOutRight 0.3s ease-in forwards'' then Exiting
                  else Entering)"

text \<open>The timers of a page that belong to the notification \<open>i\<close>.\<close>

fun action_id :: "timer_action \<Rightarrow> nat" where
  "action_id (BeginExit i) = i"
| "action_id (RemoveChild i) = i"

definition timers_of :: "nat \<Rightarrow> page \<Rightarrow> (nat \<times> timer_action) list" where
  "timers_of i p = filter (\<lambda>x. action_id (snd x) = i) (timers p)"

text \<open>
  A page whose identities are in order: every notification of the body and every
  timer is older than the next free identity.
\<close>

definition fresh :: "page \<Rightarrow> bool" where
  "fresh p \<longleftrightarrow>
     (\<forall>n \<in> set (body p). nid n < nextId p) \<and>
     (\<forall>x \<in> set (timers p). action_id (snd x) < nextId p)"

text \<open>No timer of the page is overdue: the host has run the timers due so far.\<close>

definition timely :: "page \<Rightarrow> bool" where
  "timely p \<longleftrightarrow> (\<forall>x \<in> set (timers p). clock p \<le> fst x)"

text \<open>The stage at time \<open>t\<close> of a notification whose exit is due at \<open>d\<close>.\<close>

definition schedule :: "nat \<Rightarrow> nat \<Rightarrow> stage" where
  "schedule d t = (if t < d then Entering else if t < d + 300 then Exiting else Removed)"

text \<open>
  The notification \<open>i\<close> is on course, on the way to time \<open>t\<close>, for an exit due at \<open>d\<close>:
  it waits for its exit, or it has begun it and waits for its removal, or it is gone;
  and each time the one timer it needs, and no other, is pending.
\<close>

definition on_course :: "nat \<Rightarrow> nat \<Rightarrow> nat \<Rightarrow> page \<Rightarrow> bool" where
  "on_course i d t p \<longleftrightarrow>
     stage_of i p = Entering \<and> timers_of i p = [(d, BeginExit i)] \<or>
     stage_of i p = Exiting \<and> timers_of i p = [(d + 300, RemoveChild i)] \<and> d \<le> t \<or>
     stage_of i p = Removed \<and> timers_of i p = [] \<and> d + 300 \<le> t"

subsection \<open>Sequencing with exceptions\<close>

text \<open>
  A statement that may throw returns the state it reached and the exception, if any.
  \<open>andThen\<close> is the sequence of two statements, \<open>tryCatch\<close> a \<open>try\<close> block with its
  handler.
\<close>

definition andThen :: "'s \<times> error option \<Rightarrow> ('s \<Rightarrow> 's \<times> error option) \<Rightarrow> 's \<times> error option" where
  "andThen r f = (case snd r of None \<Rightarrow> f (fst r) | Some e \<Rightarrow> r)"

definition tryCatch :: "'s \<times> error option \<Rightarrow> ('s \<Rightarrow> 's) \<Rightarrow> 's \<times> error option" where
  "tryCatch r handler = (case snd r of None \<Rightarrow> r | Some e \<Rightarrow> (handler (fst r), None))"

subsection \<open>Values of the remote payload\<close>

text \<open>
  The values \<open>response.json()\<close> can produce, and \<open>undefined\<close>, which reading a missing
  property gives. An object is the list of its own properties.
\<close>

datatype jsval =
    JUndefined | JNull | JBool bool | JNum rat | JStr string
  | JArr "jsval list" | JObj "(string \<times> jsval) list"

definition truthy :: "jsval \<Rightarrow> bool" where
  "truthy v =
     (case v of JUndefined \<Rightarrow> False | JNull \<Rightarrow> False | JBool b \<Rightarrow> b
      | JNum n \<Rightarrow> n \<noteq> 0 | JStr s \<Rightarrow> s \<noteq> [] | JArr xs \<Rightarrow> True | JObj kvs \<Rightarrow> True)"

text \<open>
  \<open>v.k\<close> for the names the code reads (\<open>achievements\<close>, \<open>benefits\<close>, \<open>market_data\<close>,
  \<open>length\<close>, \<open>title\<close> and the six field names, none of them a method of a prototype):
  an own property of an object, the length of an array or a string, \<open>undefined\<close>
  otherwise; reading a property of \<open>null\<close> or \<open>undefined\<close> throws.
\<close>

definition getProp :: "jsval \<Rightarrow> string \<Rightarrow> error + jsval" where
  "getProp v k =
     (case v of
        JUndefined \<Rightarrow> Inl TypeError
      | JNull \<Rightarrow> Inl TypeError
      | JObj kvs \<Rightarrow> Inr (case map_of kvs k of None \<Rightarrow> JUndefined | Some x \<Rightarrow> x)
      | JArr xs \<Rightarrow> Inr (if k = ''length'' then JNum (of_nat (length xs)) else JUndefined)
      | JStr s \<Rightarrow> Inr (if k = ''length'' then JNum (of_nat (length s)) else JUndefined)
      | _ \<Rightarrow> Inr JUndefined)"

text \<open>\<open>v[0]\<close>, for a value that is neither \<open>null\<close> nor \<open>undefined\<close>.\<close>

definition index0 :: "jsval \<Rightarrow> jsval" where
  "index0 v =
     (case v of
        JArr xs \<Rightarrow> (case xs of [] \<Rightarrow> JUndefined | x # _ \<Rightarrow> x)
      | JStr s \<Rightarrow> (case s of [] \<Rightarrow> JUndefined | c # _ \<Rightarrow> JStr [c])
      | JObj kvs \<Rightarrow> (case map_of kvs ''0'' of None \<Rightarrow> JUndefined | Some x \<Rightarrow> x)
      | _ \<Rightarrow> JUndefined)"

text \<open>
  The two coercions of the host the code relies on where a payload has an unexpected
  shape: the comparison \<open>v > 0\<close> for a \<open>v\<close> that is not a number, and the string of a
  value that is not a string. Both may throw (an object whose \<open>toString\<close> is no
  function). They are parameters of the model.
\<close>

record coercions =
  positive :: "jsval \<Rightarrow> error + bool"
  domString :: "jsval \<Rightarrow> error + string"

definition greaterZero :: "coercions \<Rightarrow> jsval \<Rightarrow> error + bool" where
  "greaterZero host v =
     (case v of JNum n \<Rightarrow> Inr (0 < n) | JUndefined \<Rightarrow> Inr False | _ \<Rightarrow> positive host v)"

text \<open>The string an assignment to \<open>textContent\<close> stores (\<open>null\<close> and \<open>undefined\<close> clear it).\<close>

definition toText :: "coercions \<Rightarrow> jsval \<Rightarrow> error + string" where
  "toText host v =
     (case v of JStr s \<Rightarrow> Inr s | JUndefined \<Rightarrow> Inr [] | JNull \<Rightarrow> Inr []
      | _ \<Rightarrow> domString host v)"

subsection \<open>Data hydration (\<open>loadCompanyData\<close>, \<open>populateCompanyData\<close>)\<close>

text \<open>
  The display elements of the page, each with its text, \<open>None\<close> where the page has no
  such element. For the achievements, the outer option is the section
  \<open>[data-achievements]\<close> and the inner one its \<open>.badge\<close>.
\<close>

record hydration_dom =
  achievementsBadge :: "string option option"
  benefitCost :: "string option"
  benefitEnergy :: "string option"
  benefitCarbon :: "string option"
  marketTam :: "string option"
  marketSam :: "string option"
  marketSom :: "string option"

definition updateAchievements :: "coercions \<Rightarrow> jsval \<Rightarrow> hydration_dom \<Rightarrow> hydration_dom \<times> error option" where
  "updateAchievements host achievements d =
     (case achievementsBadge d of
        None \<Rightarrow> (d, None)
      | Some badge \<Rightarrow>
          (case getProp achievements ''length'' of
             Inl e \<Rightarrow> (d, Some e)
           | Inr n \<Rightarrow>
               (case greaterZero host n of
                  Inl e \<Rightarrow> (d, Some e)
                | Inr False \<Rightarrow> (d, None)
                | Inr True \<Rightarrow>
                    (case badge of
                       None \<Rightarrow> (d, None)
                     | Some old \<Rightarrow>
                         (case getProp (index0 achievements) ''title'' of
                            Inl e \<Rightarrow> (d, Some e)
                          | Inr v \<Rightarrow>
                              (case toText host v of
                                 Inl e \<Rightarrow> (d, Some e)
                               | Inr s \<Rightarrow> (d\<lparr>achievementsBadge := Some (Some s)\<rparr>, None)))))))"

text \<open>\<open>if (el && obj.k) el.textContent = obj.k\<close>: the new text of the element.\<close>

definition hydrate :: "coercions \<Rightarrow> string option \<Rightarrow> jsval \<Rightarrow> string \<Rightarrow> string option \<times> error option" where
  "hydrate host el obj k =
     (case el of
        None \<Rightarrow> (None, None)
      | Some old \<Rightarrow>
          (case getProp obj k of
             Inl e \<Rightarrow> (Some old, Some e)
           | Inr v \<Rightarrow>
               if truthy v
               then (case toText host v of
                       Inl e \<Rightarrow> (Some old, Some e)
                     | Inr s \<Rightarrow> (Some s, None))
               else (Some old, None)))"

definition updateBenefits :: "coercions \<Rightarrow> jsval \<Rightarrow> hydration_dom \<Rightarrow> hydration_dom \<times> error option" where
  "updateBenefits host benefits d =
     andThen (andThen
       (let r = hydrate host (benefitCost d) benefits ''cost_reduction''
        in (d\<lparr>benefitCost := fst r\<rparr>, snd r))
       (\<lambda>d. let r = hydrate host (benefitEnergy d) benefits ''energy_reduction''
            in (d\<lparr>benefitEnergy := fst r\<rparr>, snd r)))
       (\<lambda>d. let r = hydrate host (benefitCarbon d) benefits ''carbon_reduction''
            in (d\<lparr>benefitCarbon := fst r\<rparr>, snd r))"

definition updateMarketData :: "coercions \<Rightarrow> jsval \<Rightarrow> hydration_dom \<Rightarrow> hydration_dom \<times> error option" where
  "updateMarketData host marketData d =
     andThen (andThen
       (let r = hydrate host (marketTam d) marketData ''total_addressable_market''
        in (d\<lparr>marketTam := fst r\<rparr>, snd r))
       (\<lambda>d. let r = hydrate host (marketSam d) marketData ''serviceable_addressable_market''
            in (d\<lparr>marketSam := fst r\<rparr>, snd r)))
       (\<lambda>d. let r = hydrate host (marketSom d) marketData ''serviceable_obtainable_market''
            in (d\<lparr>marketSom := fst r\<rparr>, snd r))"

text \<open>\<open>if (data.k) this.update(data.k)\<close>.\<close>

definition whenPresent ::
  "jsval \<Rightarrow> string \<Rightarrow> (jsval \<Rightarrow> hydration_dom \<Rightarrow> hydration_dom \<times> error option)
     \<Rightarrow> hydration_dom \<Rightarrow> hydration_dom \<times> error option" where
  "whenPresent data k update d =
     (case getProp data k of
        Inl e \<Rightarrow> (d, Some e)
      | Inr v \<Rightarrow> if truthy v then update v d else (d, None))"

definition populateCompanyData :: "coercions \<Rightarrow> jsval \<Rightarrow> hydration_dom \<Rightarrow> hydration_dom \<times> error option" where
  "populateCompanyData host data d =
     andThen (andThen
       (whenPresent data ''achievements'' (updateAchievements host) d)
       (whenPresent data ''benefits'' (updateBenefits host)))
       (whenPresent data ''market_data'' (updateMarketData host))"

text \<open>
  What \<open>fetch\<close> and \<open>response.json()\<close> come to: the request is rejected, or there is
  a response with its \<open>ok\<close> flag and its parsed body (\<open>None\<close> when the body is no JSON).
\<close>

datatype fetch_outcome = Rejected | Response bool "jsval option"

record hydration_page =
  dom :: hydration_dom
  warnings :: "string list"

definition fetchAndPopulate :: "coercions \<Rightarrow> fetch_outcome \<Rightarrow> hydration_page \<Rightarrow> hydration_page \<times> error option" where
  "fetchAndPopulate host r pg =
     (case r of
        Rejected \<Rightarrow> (pg, Some TypeError)
      | Response ok parsed \<Rightarrow>
          if ok
          then (case parsed of
                  None \<Rightarrow> (pg, Some SyntaxError)
                | Some data \<Rightarrow>
                    (let r = populateCompanyData host data (dom pg)
                     in (pg\<lparr>dom := fst r\<rparr>, snd r)))
          else (pg, None))"

definition loadCompanyData :: "coercions \<Rightarrow> fetch_outcome \<Rightarrow> hydration_page \<Rightarrow> hydration_page \<times> error option" where
  "loadCompanyData host r pg =
     tryCatch (fetchAndPopulate host r pg)
       (\<lambda>pg. pg\<lparr>warnings := warnings pg @ [''Could not load company data:'']\<rparr>)"

text \<open>A top-level field is absent from a payload: the payload has no property of that name.\<close>

definition absent :: "jsval \<Rightarrow> string \<Rightarrow> bool" where
  "absent data k = (case data of JObj kvs \<Rightarrow> map_of kvs k = None | _ \<Rightarrow> True)"

subsection \<open>The timeline engine (\<open>SquareAnimations\<close>)\<close>

text \<open>
  What the script finds when it runs: whether the globals \<open>gsap\<close> and \<open>ScrollTrigger\<close>
  are defined, whether the reduced-motion query matches, whether the document is
  hidden.
\<close>

record anim_host =
  gsapLoaded :: bool
  scrollTriggerLoaded :: bool
  reducedMotion :: bool
  documentHidden :: bool

text \<open>
  The calls into the library. The six methods of \<open>setupAnimations\<close> create tweens for
  the elements of the page, which this model does not hold: each stands here as one
  call.
\<close>

datatype gsap_call =
    RegisterPlugin | Defaults
  | AnimateHero | AnimateScrollElements | AnimateStats | AnimateCards
  | PageTransitions | HoverAnimations
  | SetDuration rat | LimitCallbacks | PauseTimeline | ResumeTimeline

datatype listener = VisibilityChange | MotionChange

record anim_state =
  console :: "string list"
  gsapCalls :: "gsap_call list"
  listeners :: "listener list"

definition initGSAP :: "anim_host \<Rightarrow> anim_state \<Rightarrow> anim_state \<times> error option" where
  "initGSAP h s =
     (if gsapLoaded h then
        (if scrollTriggerLoaded h
         then (s\<lparr>gsapCalls := gsapCalls s @ [RegisterPlugin, Defaults],
                 console := console s @ [''GSAP animations initialized'']\<rparr>, None)
         else (s, Some ReferenceError))
      else (s\<lparr>console := console s @ [''GSAP not loaded - falling back to CSS animations'']\<rparr>,
            None))"

definition setupAnimations :: "anim_host \<Rightarrow> anim_state \<Rightarrow> anim_state \<times> error option" where
  "setupAnimations h s =
     (if \<not> gsapLoaded h then (s, None)
      else (s\<lparr>gsapCalls := gsapCalls s @
                [AnimateHero, AnimateScrollElements, AnimateStats, AnimateCards,
                 PageTransitions, HoverAnimations]\<rparr>, None))"

definition newSquareAnimations :: "anim_host \<Rightarrow> anim_state \<Rightarrow> anim_state \<times> error option" where
  "newSquareAnimations h s = andThen (initGSAP h s) (setupAnimations h)"

definition setupPerformanceOptimizations :: "anim_state \<Rightarrow> anim_state \<times> error option" where
  "setupPerformanceOptimizations s = (s\<lparr>listeners := listeners s @ [VisibilityChange]\<rparr>, None)"

definition setupAccessibility :: "anim_host \<Rightarrow> anim_state \<Rightarrow> anim_state \<times> error option" where
  "setupAccessibility h s =
     andThen
       (if reducedMotion h then
          (if \<not> gsapLoaded h then (s, Some ReferenceError)
           else if \<not> scrollTriggerLoaded h
             then (s\<lparr>gsapCalls := gsapCalls s @ [SetDuration (1 / 100)]\<rparr>, Some ReferenceError)
           else (s\<lparr>gsapCalls := gsapCalls s @ [SetDuration (1 / 100), LimitCallbacks]\<rparr>, None))
        else (s, None))
       (\<lambda>s. (s\<lparr>listeners := listeners s @ [MotionChange]\<rparr>, None))"

text \<open>The handler of \<open>DOMContentLoaded\<close> at the end of the script.\<close>

definition onDOMContentLoaded :: "anim_host \<Rightarrow> anim_state \<Rightarrow> anim_state \<times> error option" where
  "onDOMContentLoaded h s =
     andThen (andThen (newSquareAnimations h s) setupPerformanceOptimizations)
       (setupAccessibility h)"

text \<open>The two listeners, run when the host reports the change.\<close>

definition onVisibilityChange :: "anim_host \<Rightarrow> anim_state \<Rightarrow> anim_state \<times> error option" where
  "onVisibilityChange h s =
     (if \<not> gsapLoaded h then (s, Some ReferenceError)
      else (s\<lparr>gsapCalls := gsapCalls s @
                [if documentHidden h then PauseTimeline else ResumeTimeline]\<rparr>, None))"

definition onMotionChange :: "anim_host \<Rightarrow> anim_state \<Rightarrow> anim_state \<times> error option" where
  "onMotionChange h s =
     (if \<not> gsapLoaded h then (s, Some ReferenceError)
      else (s\<lparr>gsapCalls := gsapCalls s @
                [SetDuration (if reducedMotion h then 1 / 100 else 6 / 10)]\<rparr>, None))"

text \<open>The host reports a change: the listener runs if it was registered.\<close>

definition dispatch :: "listener \<Rightarrow> anim_host \<Rightarrow> anim_state \<Rightarrow> anim_state \<times> error option" where
  "dispatch ev h s =
     (if ev \<in> set (listeners s)
      then (case ev of VisibilityChange \<Rightarrow> onVisibilityChange h s
            | MotionChange \<Rightarrow> onMotionChange h s)
      else (s, None))"

text \<open>A statement keeps the part \<open>g\<close> of the state, whether it throws or not.\<close>

definition keeps :: "('s \<Rightarrow> 'a) \<Rightarrow> ('s \<Rightarrow> 's \<times> error option) \<Rightarrow> bool" where
  "keeps g F \<longleftrightarrow> (\<forall>d. g (fst (F d)) = g d)"

section \<open>Navigation toggle: the round trip\<close>

text \<open>
  C6. From the closed state (neither class present), two activations of the toggle in
  succession leave the menu closed, the scroll lock cleared (\<open>overflow\<close> is the empty
  string) and \<open>aria-expanded\<close> set to \<open>false\<close>; in between, after the first activation,
  the menu is open, the scroll is locked and \<open>aria-expanded\<close> is \<open>true\<close>.
\<close>

theorem toggle_round_trip:
  assumes "\<not> toggleActive d" and "\<not> menuOpen d"
  shows "menuOpen (toggleClick d) \<and> bodyOverflow (toggleClick d) = ''hidden''
         \<and> ariaExpanded (toggleClick d) = Some ''true''
         \<and> \<not> menuOpen (toggleClick (toggleClick d))
         \<and> \<not> toggleActive (toggleClick (toggleClick d))
         \<and> bodyOverflow (toggleClick (toggleClick d)) = ''''
         \<and> ariaExpanded (toggleClick (toggleClick d)) = Some ''false''"
  using assms by (simp add: toggleClick_def boolString_def)

theorem toggle_round_trip_witness:
  "menuOpen (toggleClick \<lparr>toggleActive = False, menuOpen = False, ariaExpanded = None,
                           bodyOverflow = ''''\<rparr>)
   \<and> toggleClick (toggleClick \<lparr>toggleActive = False, menuOpen = False,
                                ariaExpanded = None, bodyOverflow = ''''\<rparr>)
     = \<lparr>toggleActive = False, menuOpen = False, ariaExpanded = Some ''false'',
        bodyOverflow = ''''\<rparr>"
  using toggle_round_trip [of "\<lparr>toggleActive = False, menuOpen = False,
                                ariaExpanded = None, bodyOverflow = ''''\<rparr>"]
  by (simp add: toggleClick_def boolString_def)

section \<open>Active-link highlighting\<close>






section \<open>Scroll reveal\<close>

lemma onEntry_observed: "observed (onEntry st e) = observed st"
  by (simp add: onEntry_def)

lemma onEntry_length: "length (elements (onEntry st e)) = length (elements st)"
  by (simp add: onEntry_def)

lemma revealElement_revealed: "revealed (revealElement el)"
  by (simp add: revealElement_def split: jsnum.splits)

lemma onEntry_revealed:
  "i < length (elements st) \<Longrightarrow>
   revealed (elements (onEntry st e) ! i)
     \<longleftrightarrow> revealed (elements st ! i) \<or> (entryTarget e = i \<and> isIntersecting e)"
  by (auto simp: onEntry_def nth_list_update revealElement_revealed)

lemma callback_invariants:
  "observed (observerCallback entries st) = observed st \<and>
   length (elements (observerCallback entries st)) = length (elements st)"
  unfolding observerCallback_def
  by (induction entries arbitrary: st) (simp_all add: onEntry_observed onEntry_length)

lemma callback_revealed:
  "i < length (elements st) \<Longrightarrow>
   revealed (elements (observerCallback entries st) ! i)
     \<longleftrightarrow> revealed (elements st ! i) \<or> (\<exists>e \<in> set entries. entryTarget e = i \<and> isIntersecting e)"
  unfolding observerCallback_def
proof (induction entries arbitrary: st)
  case Nil
  then show ?case by simp
next
  case (Cons e es)
  from Cons.prems have "i < length (elements (onEntry st e))" by (simp add: onEntry_length)
  from Cons.IH [OF this] onEntry_revealed [OF Cons.prems, of e]
  show ?case by auto
qed

text \<open>
  C5, amended. The observer is created with threshold 0.1 and a bottom root margin of
  \<open>-50px\<close>. Whatever entries the host has reported so far, a reveal target carries the
  class exactly when it carried it at the start or an intersecting entry for it was
  among them; once it carries the class it keeps it under all later entries; and it
  is still observed (the callback never calls \<open>unobserve\<close>).
\<close>

theorem revealed_once_and_for_all:
  assumes "i < length els"
  shows "threshold observerOptions = 1 / 10 \<and> rootMargin observerOptions = ''0px 0px -50px 0px'' \<and>
    (revealed (elements (observerCallback entries (setupScrollReveal els)) ! i)
       \<longleftrightarrow> revealed (els ! i) \<or> (\<exists>e \<in> set entries. entryTarget e = i \<and> isIntersecting e)) \<and>
    (revealed (elements (observerCallback entries (setupScrollReveal els)) ! i)
       \<longrightarrow> revealed (elements (observerCallback (entries @ later) (setupScrollReveal els)) ! i)) \<and>
    i \<in> set (observed (observerCallback entries (setupScrollReveal els)))"
proof -
  let ?st = "setupScrollReveal els"
  have len: "i < length (elements ?st)" and el: "elements ?st ! i = els ! i"
    using assms by (simp_all add: setupScrollReveal_def)
  have "i \<in> set (observed ?st)" using assms by (simp add: setupScrollReveal_def)
  then have obs: "i \<in> set (observed (observerCallback entries ?st))"
    by (simp add: callback_invariants)
  from callback_revealed [OF len, of entries] callback_revealed [OF len, of "entries @ later"] obs
  show ?thesis by (auto simp: el observerOptions_def)
qed

theorem revealed_once_and_for_all_witness:
  "revealed (elements (observerCallback
      [\<lparr>entryTarget = 0, isIntersecting = False\<rparr>, \<lparr>entryTarget = 0, isIntersecting = True\<rparr>,
       \<lparr>entryTarget = 0, isIntersecting = False\<rparr>]
      (setupScrollReveal [\<lparr>revealed = False, stagger = Fin 2, delayFrom = None\<rparr>])) ! 0)"
  using revealed_once_and_for_all [of 0 "[\<lparr>revealed = False, stagger = Fin 2, delayFrom = None\<rparr>]"
      "[\<lparr>entryTarget = 0, isIntersecting = False\<rparr>, \<lparr>entryTarget = 0, isIntersecting = True\<rparr>,
        \<lparr>entryTarget = 0, isIntersecting = False\<rparr>]" "[]"]
  by simp

text \<open>
  The claim C5 as stated fails in its last part: after the entry that reveals the
  element, the element is still among the observed ones.
\<close>

theorem revealed_element_stays_observed:
  "observerCallback [\<lparr>entryTarget = 0, isIntersecting = True\<rparr>]
     (setupScrollReveal [\<lparr>revealed = False, stagger = Fin 0, delayFrom = None\<rparr>])
   = \<lparr>elements = [\<lparr>revealed = True, stagger = Fin 0, delayFrom = None\<rparr>], observed = [0]\<rparr>"
  by (simp add: observerCallback_def onEntry_def setupScrollReveal_def revealElement_def)


section \<open>Notifications: severity and background\<close>

text \<open>
  C10. Whatever the page and the message, a notification shown with a severity other
  than \<open>success\<close> gets the error colour as its background, the omitted severity (which
  defaults to \<open>info\<close>) included; \<open>success\<close> alone gets the success colour. So \<open>info\<close> and
  \<open>error\<close> notifications have the same background.
\<close>

theorem notification_background:
  "background (last (body (showNotification msg ty p)))
     = (if ty = Some ''success'' then ''var(--color-success)'' else ''var(--color-error)'')
   \<and> background (last (body (showNotification msg None p)))
     = background (last (body (showNotification msg (Some ''error'') p)))
   \<and> background (last (body (showNotification msg (Some ''info'') p)))
     = background (last (body (showNotification msg (Some ''error'') p)))"
  by (cases ty) (simp_all add: showNotification_def newNotification_def severity_def)

theorem notification_background_witness:
  "background (last (body (showNotification ''Saved'' None
      \<lparr>clock = 0, body = [], timers = [], nextId = 0, uncaught = []\<rparr>)))
     = ''var(--color-error)''"
  using notification_background [of "''Saved''" None
      "\<lparr>clock = 0, body = [], timers = [], nextId = 0, uncaught = []\<rparr>"]
  by simp

section \<open>Notifications: the life of a notification\<close>

declare run_until.simps [simp del]

lemma earliest_mem: "earliest t xs = Some x \<Longrightarrow> x \<in> set xs \<and> fst x \<le> t"
  by (induction xs arbitrary: x) (auto split: option.splits if_splits)

lemma earliest_None: "earliest t xs = None \<longleftrightarrow> (\<forall>x \<in> set xs. t < fst x)"
  by (induction xs) (auto split: option.splits if_splits)

lemma earliest_min:
  "earliest t xs = Some x \<Longrightarrow> y \<in> set xs \<Longrightarrow> fst y \<le> t \<Longrightarrow> fst x \<le> fst y"
proof (induction xs arbitrary: x)
  case Nil
  then show ?case by simp
next
  case (Cons z zs)
  show ?case
  proof (cases "earliest t zs")
    case None
    with Cons.prems show ?thesis by (auto simp: earliest_None split: if_splits)
  next
    case (Some w)
    with Cons.prems Cons.IH [OF Some] show ?thesis
      by (auto split: if_splits)
  qed
qed

lemma find_setAnimation_other:
  "i \<noteq> j \<Longrightarrow> find (\<lambda>n. nid n = j) (setAnimation i a ns) = find (\<lambda>n. nid n = j) ns"
  by (induction ns) (simp_all add: setAnimation_def)

lemma find_setAnimation_same:
  "find (\<lambda>n. nid n = i) (setAnimation i a ns)
     = map_option (\<lambda>n. n\<lparr>animation := a\<rparr>) (find (\<lambda>n. nid n = i) ns)"
  by (induction ns) (simp_all add: setAnimation_def)

lemma find_filter_other:
  "i \<noteq> j \<Longrightarrow> find (\<lambda>n. nid n = j) (filter (\<lambda>n. nid n \<noteq> i) ns) = find (\<lambda>n. nid n = j) ns"
  by (induction ns) simp_all

lemma find_filter_same: "find (\<lambda>n. nid n = i) (filter (\<lambda>n. nid n \<noteq> i) ns) = None"
  by (induction ns) simp_all

lemma find_Some_mem: "find (\<lambda>n. nid n = i) ns = Some n \<Longrightarrow> i \<in> nid ` set ns"
  by (induction ns) (auto split: if_splits)

lemma filter_remove1_out: "\<not> P x \<Longrightarrow> filter P (remove1 x xs) = filter P xs"
  by (induction xs) auto

lemma filter_remove1_single: "x \<in> set xs \<Longrightarrow> filter P xs = [x] \<Longrightarrow> filter P (remove1 x xs) = []"
proof (induction xs)
  case Nil
  then show ?case by simp
next
  case (Cons y ys)
  show ?case
  proof (cases "x = y")
    case True
    with Cons.prems(2) have "P x" by (metis filter_eq_ConsD)
    with True Cons.prems(2) show ?thesis by simp
  next
    case False
    with Cons.prems have m: "x \<in> set ys" by simp
    show ?thesis
    proof (cases "P y")
      case True
      with Cons.prems(2) False show ?thesis by simp
    next
      case py: False
      with Cons.prems(2) have "filter P ys = [x]" by simp
      from Cons.IH [OF m this] False py show ?thesis by simp
    qed
  qed
qed

lemma filter_single_mem: "filter P xs = [x] \<Longrightarrow> x \<in> set xs"
proof -
  assume "filter P xs = [x]"
  then have "x \<in> set (filter P xs)" by simp
  then show ?thesis by simp
qed

lemma fire_other:
  assumes "action_id a \<noteq> i"
  shows "stage_of i (fire a p) = stage_of i p"
    and "timers_of i (fire a p) = timers_of i p"
  using assms
  by (cases a; auto simp: fire_def stage_of_def timers_of_def removeChild_def
        find_setAnimation_other find_filter_other split: option.splits)+

lemma stage_clock_timers:
  "stage_of i (p\<lparr>clock := c, timers := ts\<rparr>) = stage_of i p"
  "stage_of i (p\<lparr>clock := c\<rparr>) = stage_of i p"
  by (simp_all add: stage_of_def)

lemma timely_step:
  assumes "timely p" and e: "earliest t (timers p) = Some x"
  shows "timely (fire (snd x) (p\<lparr>clock := max (clock p) (fst x), timers := remove1 x (timers p)\<rparr>))"
    and "max (clock p) (fst x) = fst x"
proof -
  from earliest_mem [OF e] have x: "x \<in> set (timers p)" "fst x \<le> t" by simp_all
  with assms(1) show c: "max (clock p) (fst x) = fst x" by (auto simp: timely_def)
  have rest: "fst x \<le> fst y" if "y \<in> set (remove1 x (timers p))" for y
  proof -
    from that have y: "y \<in> set (timers p)" using set_remove1_subset by fast
    show ?thesis
    proof (cases "fst y \<le> t")
      case True
      from earliest_min [OF e y True] show ?thesis .
    next
      case False
      with x(2) show ?thesis by simp
    qed
  qed
  show "timely (fire (snd x) (p\<lparr>clock := max (clock p) (fst x), timers := remove1 x (timers p)\<rparr>))"
    unfolding c using rest
    by (cases "snd x") (auto simp: timely_def fire_def split: option.splits)
qed

lemma on_course_step:
  assumes tp: "timely p" and oc: "on_course i d t p" and e: "earliest t (timers p) = Some x"
  shows "on_course i d t
           (fire (snd x) (p\<lparr>clock := max (clock p) (fst x), timers := remove1 x (timers p)\<rparr>))"
proof -
  let ?q = "p\<lparr>clock := max (clock p) (fst x), timers := remove1 x (timers p)\<rparr>"
  from earliest_mem [OF e] have x: "x \<in> set (timers p)" "fst x \<le> t" by simp_all
  note c = timely_step(2) [OF tp e]
  show ?thesis
  proof (cases "action_id (snd x) = i")
    case False
    then have "timers_of i ?q = timers_of i p"
      by (simp add: timers_of_def filter_remove1_out)
    moreover have "stage_of i ?q = stage_of i p" by (rule stage_clock_timers)
    ultimately show ?thesis using oc fire_other [OF False, of ?q]
      by (simp add: on_course_def)
  next
    case True
    with x(1) have mem: "x \<in> set (timers_of i p)" by (simp add: timers_of_def)
    from oc consider
        (entering) "stage_of i p = Entering" "timers_of i p = [(d, BeginExit i)]"
      | (exiting) "stage_of i p = Exiting" "timers_of i p = [(d + 300, RemoveChild i)]" "d \<le> t"
      | (removed) "timers_of i p = []"
      unfolding on_course_def by blast
    then show ?thesis
    proof cases
      case entering
      with mem have xe: "x = (d, BeginExit i)" by simp
      from entering(2) x(1) have "timers_of i ?q = []"
        unfolding timers_of_def xe by (simp add: filter_remove1_single)
      then have t: "timers_of i (fire (snd x) ?q) = [(d + 300, RemoveChild i)]"
        using c by (simp add: xe fire_def timers_of_def)
      from entering(1) have s: "stage_of i (fire (snd x) ?q) = Exiting"
        by (auto simp: xe fire_def stage_of_def find_setAnimation_same split: option.splits)
      from x(2) have "d \<le> t" by (simp add: xe)
      with s t show ?thesis by (simp add: on_course_def)
    next
      case exiting
      with mem have xe: "x = (d + 300, RemoveChild i)" by simp
      from exiting(2) x(1) have t0: "timers_of i ?q = []"
        unfolding timers_of_def xe by (simp add: filter_remove1_single)
      from exiting(1) obtain n where "find (\<lambda>n. nid n = i) (body p) = Some n"
        by (auto simp: stage_of_def split: option.splits)
      then have "i \<in> nid ` set (body p)" by (rule find_Some_mem)
      then have f: "fire (snd x) ?q = ?q\<lparr>body := filter (\<lambda>n. nid n \<noteq> i) (body p)\<rparr>"
        by (simp add: xe fire_def removeChild_def)
      have s: "stage_of i (fire (snd x) ?q) = Removed"
        unfolding f by (simp add: stage_of_def find_filter_same)
      have t: "timers_of i (fire (snd x) ?q) = []"
        unfolding f using t0 by (simp add: timers_of_def)
      from x(2) have "d + 300 \<le> t" by (simp add: xe)
      with s t show ?thesis by (simp add: on_course_def)
    next
      case removed
      with mem show ?thesis by simp
    qed
  qed
qed

lemma on_course_run:
  "timely p \<Longrightarrow> on_course i d t p \<Longrightarrow> stage_of i (run_until t p) = schedule d t"
proof (induction t p rule: run_until.induct)
  case (1 t p)
  show ?case
  proof (cases "earliest t (timers p)")
    case None
    then have late: "\<forall>x \<in> set (timers p). t < fst x" by (simp add: earliest_None)
    have r: "run_until t p = p\<lparr>clock := max (clock p) t\<rparr>"
      by (subst run_until.simps) (simp add: None)
    from "1.prems"(2) consider
        (entering) "stage_of i p = Entering" "timers_of i p = [(d, BeginExit i)]"
      | (exiting) "stage_of i p = Exiting" "timers_of i p = [(d + 300, RemoveChild i)]" "d \<le> t"
      | (removed) "stage_of i p = Removed" "d + 300 \<le> t"
      unfolding on_course_def by blast
    then show ?thesis
    proof cases
      case entering
      then have "(d, BeginExit i) \<in> set (timers p)"
        by (simp add: timers_of_def filter_single_mem)
      with late have "t < d" by auto
      with entering(1) show ?thesis by (simp add: r stage_clock_timers schedule_def)
    next
      case exiting
      then have "(d + 300, RemoveChild i) \<in> set (timers p)"
        by (simp add: timers_of_def filter_single_mem)
      with late have "t < d + 300" by auto
      with exiting(1,3) show ?thesis by (simp add: r stage_clock_timers schedule_def)
    next
      case removed
      then show ?thesis by (simp add: r stage_clock_timers schedule_def)
    qed
  next
    case (Some x)
    let ?q = "fire (snd x) (p\<lparr>clock := max (clock p) (fst x), timers := remove1 x (timers p)\<rparr>)"
    have r: "run_until t p = run_until t ?q"
      by (subst run_until.simps) (simp add: Some)
    from "1.IH" [OF Some timely_step(1) [OF "1.prems"(1) Some] on_course_step [OF "1.prems" Some]]
    show ?thesis by (simp add: r)
  qed
qed

lemma find_app:
  "find P (xs @ ys) = (case find P xs of None \<Rightarrow> find P ys | Some x \<Rightarrow> Some x)"
  by (induction xs) simp_all

lemma show_invariants:
  assumes "fresh p" and "timely p"
  shows "fresh (showNotification msg ty p)" and "timely (showNotification msg ty p)"
  using assms
  by (auto simp: fresh_def timely_def showNotification_def newNotification_def less_Suc_eq)

text \<open>
  The two conditions on a page hold of the empty page and are kept by every call of
  \<open>showNotification\<close> and by the event loop: they hold of every page the code reaches.
\<close>

lemma fresh_step:
  assumes "fresh p" and e: "earliest t (timers p) = Some x"
  shows "fresh (fire (snd x) (p\<lparr>clock := max (clock p) (fst x), timers := remove1 x (timers p)\<rparr>))"
proof -
  from earliest_mem [OF e] have x: "x \<in> set (timers p)" by simp
  with assms(1) have a: "action_id (snd x) < nextId p" by (simp add: fresh_def)
  have r: "y \<in> set (timers p)" if "y \<in> set (remove1 x (timers p))" for y
    using that set_remove1_subset by fast
  show ?thesis
  proof (cases "snd x")
    case (BeginExit i)
    with a assms(1) r show ?thesis
      by (auto simp: fresh_def fire_def setAnimation_def)
  next
    case (RemoveChild i)
    with a assms(1) r show ?thesis
      by (auto simp: fresh_def fire_def removeChild_def)
  qed
qed

lemma run_invariants:
  "fresh p \<Longrightarrow> timely p \<Longrightarrow> fresh (run_until t p) \<and> timely (run_until t p)"
proof (induction t p rule: run_until.induct)
  case (1 t p)
  show ?case
  proof (cases "earliest t (timers p)")
    case None
    then have late: "\<forall>x \<in> set (timers p). t < fst x" by (simp add: earliest_None)
    have r: "run_until t p = p\<lparr>clock := max (clock p) t\<rparr>"
      by (subst run_until.simps) (simp add: None)
    from "1.prems" late show ?thesis
      unfolding r by (auto simp: fresh_def timely_def)
  next
    case (Some x)
    let ?q = "fire (snd x) (p\<lparr>clock := max (clock p) (fst x), timers := remove1 x (timers p)\<rparr>)"
    have r: "run_until t p = run_until t ?q"
      by (subst run_until.simps) (simp add: Some)
    from "1.IH" [OF Some fresh_step [OF "1.prems"(1) Some] timely_step(1) [OF "1.prems"(2) Some]]
    show ?thesis by (simp add: r)
  qed
qed


lemma show_stage:
  assumes "fresh p"
  shows "stage_of (nextId p) (showNotification msg ty p) = Entering"
    and "timers_of (nextId p) (showNotification msg ty p) = [(clock p + 5000, BeginExit (nextId p))]"
proof -
  from assms have "\<forall>n \<in> set (body p). nid n \<noteq> nextId p" by (auto simp: fresh_def)
  then have "find (\<lambda>n. nid n = nextId p) (body p) = None" by (simp add: find_None_iff)
  then show "stage_of (nextId p) (showNotification msg ty p) = Entering"
    by (simp add: stage_of_def showNotification_def find_app newNotification_def)
  from assms have "\<forall>x \<in> set (timers p). action_id (snd x) \<noteq> nextId p" by (auto simp: fresh_def)
  then have "filter (\<lambda>x. action_id (snd x) = nextId p) (timers p) = []" by (simp add: filter_empty_conv)
  then show "timers_of (nextId p) (showNotification msg ty p) = [(clock p + 5000, BeginExit (nextId p))]"
    by (simp add: timers_of_def showNotification_def)
qed

lemma show_others:
  assumes "fresh p" and "stage_of j p = Entering" and "timers_of j p = [(d, BeginExit j)]"
  shows "stage_of j (showNotification msg ty p) = Entering"
    and "timers_of j (showNotification msg ty p) = [(d, BeginExit j)]"
proof -
  from assms(3) have "(d, BeginExit j) \<in> set (timers p)"
    by (simp add: timers_of_def filter_single_mem)
  with assms(1) have j: "j \<noteq> nextId p" by (auto simp: fresh_def)
  from assms(2) obtain n where "find (\<lambda>n. nid n = j) (body p) = Some n"
    by (auto simp: stage_of_def split: option.splits)
  with assms(2) show "stage_of j (showNotification msg ty p) = Entering"
    by (simp add: stage_of_def showNotification_def find_app)
  from assms(3) j show "timers_of j (showNotification msg ty p) = [(d, BeginExit j)]"
    by (simp add: timers_of_def showNotification_def)
qed

text \<open>
  C7. On a page in order (identities fresh, no timer overdue), with the host running
  each timer when it is due, a call of \<open>showNotification\<close> appends exactly one element to
  the body at once; that element is in its entrance until 5000 ms after the call, in
  its exit transition from then until 5300 ms after the call, and off the page from
  then on. Every notification already waiting for its exit keeps the schedule of its
  own timers, whatever else is shown: each notification has its own pair of timers.
\<close>

theorem notification_lifecycle:
  assumes "fresh p" and "timely p"
  shows "body (showNotification msg ty p) = body p @ [newNotification (nextId p) msg ty] \<and>
    (\<forall>t. stage_of (nextId p) (run_until t (showNotification msg ty p))
           = (if t < clock p + 5000 then Entering
              else if t < clock p + 5300 then Exiting else Removed)) \<and>
    (\<forall>j d t. stage_of j p = Entering \<and> timers_of j p = [(d, BeginExit j)]
        \<longrightarrow> stage_of j (run_until t (showNotification msg ty p)) = schedule d t)"
proof -
  let ?q = "showNotification msg ty p"
  note tq = show_invariants(2) [OF assms, of msg ty]
  have "on_course (nextId p) (clock p + 5000) t ?q" for t
    using show_stage [OF assms(1), of msg ty] by (simp add: on_course_def)
  from on_course_run [OF tq this]
  have new: "stage_of (nextId p) (run_until t ?q)
        = (if t < clock p + 5000 then Entering
           else if t < clock p + 5300 then Exiting else Removed)" for t
    by (simp add: schedule_def)
  have old: "stage_of j (run_until t ?q) = schedule d t"
    if "stage_of j p = Entering" "timers_of j p = [(d, BeginExit j)]" for j d t
  proof -
    from show_others [OF assms(1) that, of msg ty] have "on_course j d t ?q"
      by (simp add: on_course_def)
    from on_course_run [OF tq this] show ?thesis .
  qed
  have "body ?q = body p @ [newNotification (nextId p) msg ty]"
    by (simp add: showNotification_def)
  with new old show ?thesis by blast
qed

theorem notification_lifecycle_witness:
  "fresh \<lparr>clock = 1000, body = [newNotification 0 ''Saved'' None],
          timers = [(5000, BeginExit 0)], nextId = 1, uncaught = []\<rparr> \<and>
   timely \<lparr>clock = 1000, body = [newNotification 0 ''Saved'' None],
           timers = [(5000, BeginExit 0)], nextId = 1, uncaught = []\<rparr> \<and>
   map (\<lambda>t. stage_of 1 (run_until t
          (showNotification ''Message sent successfully! We'll get back to you soon.''
             (Some ''success'')
             \<lparr>clock = 1000, body = [newNotification 0 ''Saved'' None],
                timers = [(5000, BeginExit 0)], nextId = 1, uncaught = []\<rparr>)))
       [1000, 5999, 6000, 6299, 6300]
     = [Entering, Entering, Exiting, Exiting, Removed] \<and>
   map (\<lambda>t. stage_of 0 (run_until t
          (showNotification ''Message sent successfully! We'll get back to you soon.''
             (Some ''success'')
             \<lparr>clock = 1000, body = [newNotification 0 ''Saved'' None],
                timers = [(5000, BeginExit 0)], nextId = 1, uncaught = []\<rparr>)))
       [1000, 4999, 5000, 5299, 5300]
     = [Entering, Entering, Exiting, Exiting, Removed]"
proof -
  let ?p = "\<lparr>clock = 1000, body = [newNotification 0 ''Saved'' None],
             timers = [(5000, BeginExit 0)], nextId = 1, uncaught = []\<rparr>"
  have f: "fresh ?p" and t: "timely ?p" by (simp_all add: fresh_def timely_def newNotification_def)
  have o: "stage_of 0 ?p = Entering \<and> timers_of 0 ?p = [(5000, BeginExit 0)]"
    by (simp add: stage_of_def timers_of_def newNotification_def)
  from notification_lifecycle [OF f t] o f t show ?thesis
    by (simp add: schedule_def)
qed


section \<open>The counter animation\<close>

subsection \<open>The characters of a rendered number\<close>

declare showNat.simps [simp del]

lemma digitChar_digit: "d < 10 \<Longrightarrow> digitChar d \<in> set ''0123456789''"
  unfolding digitChar_def by (rule nth_mem) simp

lemma showNat_digits: "set (showNat n) \<subseteq> set ''0123456789''"
proof (induction n rule: showNat.induct)
  case (1 n)
  show ?case
  proof (cases "n < 10")
    case True
    then show ?thesis using digitChar_digit [of n] by (subst showNat.simps) simp
  next
    case False
    have "n mod 10 < 10" by simp
    then have "digitChar (n mod 10) \<in> set ''0123456789''" by (rule digitChar_digit)
    with False 1 show ?thesis by (subst showNat.simps) simp
  qed
qed

lemma showInt_chars: "set (showInt i) \<subseteq> insert CHR ''-'' (set ''0123456789'')"
proof (cases "i < 0")
  case True
  then have "set (showInt i) = insert CHR ''-'' (set (showNat (nat (- i))))"
    by (simp add: showInt_def)
  then show ?thesis using showNat_digits [of "nat (- i)"] by blast
next
  case False
  then have "set (showInt i) = set (showNat (nat i))"
    by (simp add: showInt_def)
  then show ?thesis using showNat_digits [of "nat i"] by blast
qed

lemma floorText_no_marks:
  "CHR ''%'' \<notin> set (floorText a)" "CHR ''M'' \<notin> set (floorText a)" "CHR ''$'' \<notin> set (floorText a)"
proof -
  have m: "CHR ''%'' \<notin> insert CHR ''-'' (set ''0123456789'')"
      "CHR ''M'' \<notin> insert CHR ''-'' (set ''0123456789'')"
      "CHR ''$'' \<notin> insert CHR ''-'' (set ''0123456789'')"
    by simp_all
  show "CHR ''%'' \<notin> set (floorText a)"
    using m(1) showInt_chars by (cases a) (auto simp: floorText_def)
  show "CHR ''M'' \<notin> set (floorText a)"
    using m(2) showInt_chars by (cases a) (auto simp: floorText_def)
  show "CHR ''$'' \<notin> set (floorText a)"
    using m(3) showInt_chars by (cases a) (auto simp: floorText_def)
qed

lemma counterFormat_render:
  "CHR ''%'' \<notin> set ds \<Longrightarrow> CHR ''M'' \<notin> set ds \<Longrightarrow> counterFormat (render f ds) = f"
  by (cases f) (simp_all add: counterFormat_def render_def)

lemma tick_text:
  "counterText (tick rnd c)
     = render (counterFormat (counterText c)) (floorText (current (tick rnd c)))"
  by (simp add: tick_def Let_def counterFormat_def render_def)

lemma tick_format:
  "counterFormat (counterText (tick rnd c)) = counterFormat (counterText c)"
  by (simp only: tick_text counterFormat_render floorText_no_marks not_False_eq_True)

subsection \<open>One run of the callback\<close>



subsection \<open>What rounding preserves\<close>







subsection \<open>The run to the target\<close>






subsection \<open>A target that does not parse\<close>

lemma tick_nan:
  assumes "increment c = NaN"
  shows "current (tick rnd c) = NaN" and "increment (tick rnd c) = NaN"
    and "intervalActive (tick rnd c) = intervalActive c"
    and "counterText (tick rnd c) = render (counterFormat (counterText c)) ''NaN''"
  using assms
  by (simp_all add: tick_def Let_def jsAdd_def jsGe_def floorText_def counterFormat_def
        render_def split: jsnum.splits)

lemma nan_run:
  "increment c = NaN \<Longrightarrow> intervalActive c
   \<Longrightarrow> length (runInterval rnd n c) = n \<and>
       (\<forall>c' \<in> set (runInterval rnd n c).
          intervalActive c' \<and>
          counterText c' = render (counterFormat (counterText c)) ''NaN'')"
proof (induction n arbitrary: c)
  case 0
  then show ?case by simp
next
  case (Suc n)
  have f: "counterFormat (counterText (tick rnd c)) = counterFormat (counterText c)"
    by (rule tick_format)
  note a = tick_nan [OF Suc.prems(1), of rnd]
  from a(3) Suc.prems(2) have act: "intervalActive (tick rnd c)" by simp
  note ih = Suc.IH [OF a(2) act, unfolded f]
  from ih act a(4) Suc.prems(2) show ?case by simp
qed

text \<open>
  C2, on the code as it is. A counter whose \<open>data-target\<close> does not parse is not
  skipped: \<open>startCounter\<close> has no \<open>isNaN\<close> guard (each branch of \<open>animateStats\<close> has one),
  so the callback runs at every period, the timer is never cleared, and every run
  writes \<open>NaN\<close> in the format of the text over what the element showed.
\<close>

theorem counter_nan_not_skipped:
  assumes "parseInt (dataTarget el) = NaN"
  shows "length (runInterval rnd n (startCounter rnd el)) = n \<and>
         (\<forall>c \<in> set (runInterval rnd n (startCounter rnd el)).
            intervalActive c \<and>
            counterText c = render (counterFormat (counterText el)) ''NaN'')"
proof -
  have "increment (startCounter rnd el) = NaN" "intervalActive (startCounter rnd el)"
    "counterText (startCounter rnd el) = counterText el"
    using assms by (simp_all add: startCounter_def jsDiv_def)
  from nan_run [OF this(1,2), of rnd n] this(3) show ?thesis by simp
qed

theorem counter_nan_not_skipped_witness:
  "parseInt ''abc'' = NaN \<and>
   map counterText (runInterval (\<lambda>x. x) 3
       (startCounter (\<lambda>x. x) \<lparr>dataTarget = ''abc'', counterText = ''70%''\<rparr>))
     = [''NaN%'', ''NaN%'', ''NaN%''] \<and>
   intervalActive (last (runInterval (\<lambda>x. x) 3
       (startCounter (\<lambda>x. x) \<lparr>dataTarget = ''abc'', counterText = ''70%''\<rparr>)))"
proof -
  let ?el = "\<lparr>dataTarget = ''abc'', counterText = ''70%''\<rparr>"
  let ?fs = "runInterval (\<lambda>x. x) 3 (startCounter (\<lambda>x. x) ?el)"
  have p: "parseInt (dataTarget ?el) = NaN" by code_simp
  have f: "render (counterFormat (counterText ?el)) ''NaN'' = ''NaN%''"
    by (simp add: counterFormat_def render_def)
  from counter_nan_not_skipped [OF p, of "\<lambda>x. x" 3]
  have len: "length ?fs = 3"
    and all: "\<forall>c \<in> set ?fs. intervalActive c \<and> counterText c = ''NaN%''"
    unfolding f by blast+
  from len obtain a b c where fs: "?fs = [a, b, c]"
    by (auto simp: length_Suc_conv numeral_3_eq_3)
  from all show ?thesis using p unfolding fs by simp
qed

text \<open>
  C3, amended. Every run of the callback of \<open>startCounter\<close> writes the floor of the
  counter in the format read off the current text, and the text it writes has that
  format again; the format is a percentage if the text has a \<open>%\<close>, otherwise
  currency-millions if it has an \<open>M\<close> (whether or not it has a \<open>$\<close>), otherwise a plain
  integer. \<open>animateStats\<close> starts its tween in the branch of a percentage if the text has
  a \<open>%\<close>, otherwise of currency-millions if it has a \<open>$\<close> (whether or not it has an
  \<open>M\<close>), otherwise of a plain integer.
\<close>

theorem counter_format_by_marks:
  "counterText (tick rnd c)
     = render (counterFormat (counterText c)) (floorText (current (tick rnd c))) \<and>
   counterFormat (counterText (tick rnd c)) = counterFormat (counterText c) \<and>
   counterFormat txt = (if CHR ''%'' \<in> set txt then Percentage
                        else if CHR ''M'' \<in> set txt then CurrencyMillions
                        else PlainInteger) \<and>
   (case statTween txt of None \<Rightarrow> True | Some (f, v, d) \<Rightarrow> f = statFormat txt) \<and>
   statFormat txt = (if CHR ''%'' \<in> set txt then Percentage
                     else if CHR ''$'' \<in> set txt then CurrencyMillions
                     else PlainInteger)"
proof -
  have "case statTween txt of None \<Rightarrow> True | Some (f, v, d) \<Rightarrow> f = statFormat txt"
    by (simp add: statTween_def statFormat_def split: jsnum.splits)
  then show ?thesis
    using tick_text [of rnd c] tick_format [of rnd c]
    by (simp add: counterFormat_def statFormat_def)
qed

theorem counter_format_by_marks_witness:
  "counterText (tick (\<lambda>x. x)
      (startCounter (\<lambda>x. x) \<lparr>dataTarget = ''500'', counterText = ''$500M''\<rparr>)) = ''$8M'' \<and>
   counterFormat ''$500M'' = CurrencyMillions \<and>
   statTween ''$500M'' = Some (CurrencyMillions, 500, 7 / 10)"
proof -
  let ?c = "startCounter (\<lambda>x. x) \<lparr>dataTarget = ''500'', counterText = ''$500M''\<rparr>"
  have "current (tick (\<lambda>x. x) ?c) = Fin (25 / 3)" by code_simp
  moreover have "floorText (Fin (25 / 3)) = ''8''" by code_simp
  moreover have "counterText ?c = ''$500M''" by (simp add: startCounter_def)
  moreover have "statTween ''$500M'' = Some (CurrencyMillions, 500, 7 / 10)" by code_simp
  ultimately show ?thesis
    using counter_format_by_marks [of "\<lambda>x. x" ?c "''$500M''"]
    by (simp add: render_def)
qed

text \<open>
  The claim C3 as the specification words it fails: the text \<open>120 MB\<close> has no \<open>$\<close>, so
  its format would be the plain integer and the first frame \<open>2\<close>, but the callback of
  \<open>startCounter\<close> writes \<open>$2M\<close>; and \<open>animateStats\<close> takes the currency branch for \<open>$5\<close>,
  which has no \<open>M\<close>.
\<close>

theorem format_needs_one_mark_only:
  "counterText (tick (\<lambda>x. x)
      (startCounter (\<lambda>x. x) \<lparr>dataTarget = ''120'', counterText = ''120 MB''\<rparr>)) = ''$2M'' \<and>
   render (specFormat ''120 MB'') ''2'' = ''2'' \<and>
   statFormat ''$5'' = CurrencyMillions \<and> specFormat ''$5'' = PlainInteger"
  by code_simp


section \<open>The timeline engine without its library\<close>

lemma andThen_simps [simp]:
  "andThen (s, None) f = f s" "andThen (s, Some e) f = (s, Some e)"
  by (simp_all add: andThen_def)

lemma constructor_without_gsap:
  assumes "\<not> gsapLoaded h"
  shows "newSquareAnimations h s
           = (s\<lparr>console := console s @ [''GSAP not loaded - falling back to CSS animations'']\<rparr>, None)"
  using assms by (simp add: newSquareAnimations_def initGSAP_def setupAnimations_def)

lemma loaded_without_gsap:
  assumes "\<not> gsapLoaded h"
  shows "onDOMContentLoaded h s =
     (if reducedMotion h
      then (s\<lparr>console := console s @ [''GSAP not loaded - falling back to CSS animations''],
              listeners := listeners s @ [VisibilityChange]\<rparr>, Some ReferenceError)
      else (s\<lparr>console := console s @ [''GSAP not loaded - falling back to CSS animations''],
              listeners := listeners s @ [VisibilityChange, MotionChange]\<rparr>, None))"
  using assms
  by (simp add: onDOMContentLoaded_def constructor_without_gsap setupPerformanceOptimizations_def setupAccessibility_def)

text \<open>
  C9, on the code as it is. With \<open>gsap\<close> undefined the constructor does nothing but
  warn on the console, as the claim says; but the handler of \<open>DOMContentLoaded\<close> goes on
  to \<open>setupPerformanceOptimizations\<close> and \<open>setupAccessibility\<close>, which have no such
  guard: a listener for \<open>visibilitychange\<close> is registered, and with the reduced-motion
  preference active \<open>gsap.set\<close> raises a \<open>ReferenceError\<close> at once; without it the
  listeners raise it when the host reports a change.
\<close>

theorem missing_gsap_raises:
  assumes "\<not> gsapLoaded h"
  shows "onDOMContentLoaded h s =
     (if reducedMotion h
      then (s\<lparr>console := console s @ [''GSAP not loaded - falling back to CSS animations''],
              listeners := listeners s @ [VisibilityChange]\<rparr>, Some ReferenceError)
      else (s\<lparr>console := console s @ [''GSAP not loaded - falling back to CSS animations''],
              listeners := listeners s @ [VisibilityChange, MotionChange]\<rparr>, None)) \<and>
     snd (dispatch VisibilityChange h (fst (onDOMContentLoaded h s))) = Some ReferenceError \<and>
     (\<not> reducedMotion h \<longrightarrow>
        snd (dispatch MotionChange h (fst (onDOMContentLoaded h s))) = Some ReferenceError)"
  using assms
  by (simp add: loaded_without_gsap dispatch_def onVisibilityChange_def onMotionChange_def)

theorem missing_gsap_raises_witness:
  "onDOMContentLoaded
     \<lparr>gsapLoaded = False, scrollTriggerLoaded = False, reducedMotion = True, documentHidden = False\<rparr>
     \<lparr>console = [], gsapCalls = [], listeners = []\<rparr>
   = (\<lparr>console = [''GSAP not loaded - falling back to CSS animations''], gsapCalls = [],
        listeners = [VisibilityChange]\<rparr>, Some ReferenceError)"
  using missing_gsap_raises [of
     "\<lparr>gsapLoaded = False, scrollTriggerLoaded = False, reducedMotion = True, documentHidden = False\<rparr>"
     "\<lparr>console = [], gsapCalls = [], listeners = []\<rparr>"]
  by simp

section \<open>Data hydration\<close>

lemma keeps_andThen: "keeps g F \<Longrightarrow> keeps g G \<Longrightarrow> keeps g (\<lambda>d. andThen (F d) G)"
  by (auto simp: keeps_def andThen_def split: option.splits)

lemma keeps_whenPresent: "(\<And>v. keeps g (f v)) \<Longrightarrow> keeps g (whenPresent data k f)"
  by (auto simp: keeps_def whenPresent_def split: sum.splits)

lemma whenPresent_absent:
  assumes "absent data k" and "k \<noteq> ''length''"
  shows "fst (whenPresent data k f d) = d"
  using assms
  by (cases data) (simp_all add: absent_def whenPresent_def getProp_def truthy_def)

lemma keeps_absent: "absent data k \<Longrightarrow> k \<noteq> ''length'' \<Longrightarrow> keeps g (whenPresent data k f)"
  by (simp add: keeps_def whenPresent_absent)

lemma updateAchievements_shape:
  "\<exists>b. fst (updateAchievements host a d) = d\<lparr>achievementsBadge := b\<rparr>"
proof (cases "fst (updateAchievements host a d) = d")
  case True
  then have "fst (updateAchievements host a d) = d\<lparr>achievementsBadge := achievementsBadge d\<rparr>"
    by simp
  then show ?thesis ..
next
  case False
  then show ?thesis
    by (auto simp: updateAchievements_def split: option.splits sum.splits bool.splits)
qed

lemma updateBenefits_shape:
  "\<exists>a b c. fst (updateBenefits host v d)
      = d\<lparr>benefitCost := a, benefitEnergy := b, benefitCarbon := c\<rparr>"
proof -
  obtain a e1 where h1: "hydrate host (benefitCost d) v ''cost_reduction'' = (a, e1)"
    by (cases "hydrate host (benefitCost d) v ''cost_reduction''")
  obtain b e2 where h2: "hydrate host (benefitEnergy d) v ''energy_reduction'' = (b, e2)"
    by (cases "hydrate host (benefitEnergy d) v ''energy_reduction''")
  obtain c e3 where h3: "hydrate host (benefitCarbon d) v ''carbon_reduction'' = (c, e3)"
    by (cases "hydrate host (benefitCarbon d) v ''carbon_reduction''")
  have "fst (updateBenefits host v d) = d\<lparr>benefitCost := a\<rparr> \<or>
        fst (updateBenefits host v d) = d\<lparr>benefitCost := a, benefitEnergy := b\<rparr> \<or>
        fst (updateBenefits host v d) = d\<lparr>benefitCost := a, benefitEnergy := b, benefitCarbon := c\<rparr>"
    by (cases e1; cases e2) (simp_all add: updateBenefits_def h1 h2 h3)
  then consider
      "fst (updateBenefits host v d)
         = d\<lparr>benefitCost := a, benefitEnergy := benefitEnergy d, benefitCarbon := benefitCarbon d\<rparr>"
    | "fst (updateBenefits host v d)
         = d\<lparr>benefitCost := a, benefitEnergy := b, benefitCarbon := benefitCarbon d\<rparr>"
    | "fst (updateBenefits host v d)
         = d\<lparr>benefitCost := a, benefitEnergy := b, benefitCarbon := c\<rparr>"
    by auto
  then show ?thesis by cases blast+
qed

lemma updateMarketData_shape:
  "\<exists>a b c. fst (updateMarketData host v d)
      = d\<lparr>marketTam := a, marketSam := b, marketSom := c\<rparr>"
proof -
  obtain a e1 where h1: "hydrate host (marketTam d) v ''total_addressable_market'' = (a, e1)"
    by (cases "hydrate host (marketTam d) v ''total_addressable_market''")
  obtain b e2 where h2: "hydrate host (marketSam d) v ''serviceable_addressable_market'' = (b, e2)"
    by (cases "hydrate host (marketSam d) v ''serviceable_addressable_market''")
  obtain c e3 where h3: "hydrate host (marketSom d) v ''serviceable_obtainable_market'' = (c, e3)"
    by (cases "hydrate host (marketSom d) v ''serviceable_obtainable_market''")
  have "fst (updateMarketData host v d) = d\<lparr>marketTam := a\<rparr> \<or>
        fst (updateMarketData host v d) = d\<lparr>marketTam := a, marketSam := b\<rparr> \<or>
        fst (updateMarketData host v d) = d\<lparr>marketTam := a, marketSam := b, marketSom := c\<rparr>"
    by (cases e1; cases e2) (simp_all add: updateMarketData_def h1 h2 h3)
  then consider
      "fst (updateMarketData host v d)
         = d\<lparr>marketTam := a, marketSam := marketSam d, marketSom := marketSom d\<rparr>"
    | "fst (updateMarketData host v d)
         = d\<lparr>marketTam := a, marketSam := b, marketSom := marketSom d\<rparr>"
    | "fst (updateMarketData host v d)
         = d\<lparr>marketTam := a, marketSam := b, marketSom := c\<rparr>"
    by auto
  then show ?thesis by cases blast+
qed

lemma updateAchievements_keeps:
  assumes "\<And>d b. g (d\<lparr>achievementsBadge := b\<rparr>) = g d"
  shows "keeps g (updateAchievements host v)"
  unfolding keeps_def
proof
  fix d
  from updateAchievements_shape [of host v d]
  obtain b where "fst (updateAchievements host v d) = d\<lparr>achievementsBadge := b\<rparr>" ..
  then show "g (fst (updateAchievements host v d)) = g d" by (simp add: assms)
qed

lemma updateBenefits_keeps:
  assumes "\<And>d a b c. g (d\<lparr>benefitCost := a, benefitEnergy := b, benefitCarbon := c\<rparr>) = g d"
  shows "keeps g (updateBenefits host v)"
  unfolding keeps_def
proof
  fix d
  from updateBenefits_shape [of host v d]
  obtain a b c where "fst (updateBenefits host v d)
      = d\<lparr>benefitCost := a, benefitEnergy := b, benefitCarbon := c\<rparr>" by blast
  then show "g (fst (updateBenefits host v d)) = g d" by (simp only: assms)
qed

lemma updateMarketData_keeps:
  assumes "\<And>d a b c. g (d\<lparr>marketTam := a, marketSam := b, marketSom := c\<rparr>) = g d"
  shows "keeps g (updateMarketData host v)"
  unfolding keeps_def
proof
  fix d
  from updateMarketData_shape [of host v d]
  obtain a b c where "fst (updateMarketData host v d)
      = d\<lparr>marketTam := a, marketSam := b, marketSom := c\<rparr>" by blast
  then show "g (fst (updateMarketData host v d)) = g d" by (simp only: assms)
qed

lemma populate_keeps_badge:
  assumes "absent data ''achievements''"
  shows "keeps achievementsBadge (populateCompanyData host data)"
  unfolding populateCompanyData_def
  by (intro keeps_andThen keeps_absent [OF assms] keeps_whenPresent
        updateBenefits_keeps updateMarketData_keeps) simp_all

lemma populate_keeps_benefits:
  assumes "absent data ''benefits''"
  shows "keeps benefitCost (populateCompanyData host data)"
    and "keeps benefitEnergy (populateCompanyData host data)"
    and "keeps benefitCarbon (populateCompanyData host data)"
  unfolding populateCompanyData_def
  by (intro keeps_andThen keeps_absent [OF assms] keeps_whenPresent
        updateAchievements_keeps updateMarketData_keeps; simp)+

lemma populate_keeps_market:
  assumes "absent data ''market_data''"
  shows "keeps marketTam (populateCompanyData host data)"
    and "keeps marketSam (populateCompanyData host data)"
    and "keeps marketSom (populateCompanyData host data)"
  unfolding populateCompanyData_def
  by (intro keeps_andThen keeps_absent [OF assms] keeps_whenPresent
        updateAchievements_keeps updateBenefits_keeps; simp)+

lemma load_dom:
  "dom (fst (loadCompanyData host (Response True (Some data)) pg))
     = fst (populateCompanyData host data (dom pg))"
  by (simp add: loadCompanyData_def fetchAndPopulate_def tryCatch_def Let_def split: option.splits)

lemma load_no_error: "snd (loadCompanyData host r pg) = None"
  by (simp add: loadCompanyData_def tryCatch_def split: option.splits)

text \<open>
  C8. Whatever the outcome of the request, \<open>loadCompanyData\<close> lets no exception
  escape. For every payload of an \<open>ok\<close> response (of any shape, and whatever the host's
  coercions do), a top-level field that is absent leaves its display elements as they
  were: the badge for \<open>achievements\<close>, the three benefit elements for \<open>benefits\<close>, the
  three market elements for \<open>market_data\<close>; so only fields that are present update
  their elements. The empty payload changes nothing, a response that is not \<open>ok\<close> is
  ignored, and a rejected request leaves the page alone but for one console warning.
\<close>

theorem hydration_skips_absent_fields:
  "snd (loadCompanyData host r pg) = None \<and>
   (absent data ''achievements'' \<longrightarrow>
      achievementsBadge (dom (fst (loadCompanyData host (Response True (Some data)) pg)))
        = achievementsBadge (dom pg)) \<and>
   (absent data ''benefits'' \<longrightarrow>
      benefitCost (dom (fst (loadCompanyData host (Response True (Some data)) pg)))
        = benefitCost (dom pg) \<and>
      benefitEnergy (dom (fst (loadCompanyData host (Response True (Some data)) pg)))
        = benefitEnergy (dom pg) \<and>
      benefitCarbon (dom (fst (loadCompanyData host (Response True (Some data)) pg)))
        = benefitCarbon (dom pg)) \<and>
   (absent data ''market_data'' \<longrightarrow>
      marketTam (dom (fst (loadCompanyData host (Response True (Some data)) pg)))
        = marketTam (dom pg) \<and>
      marketSam (dom (fst (loadCompanyData host (Response True (Some data)) pg)))
        = marketSam (dom pg) \<and>
      marketSom (dom (fst (loadCompanyData host (Response True (Some data)) pg)))
        = marketSom (dom pg)) \<and>
   loadCompanyData host (Response True (Some (JObj []))) pg = (pg, None) \<and>
   loadCompanyData host (Response False parsed) pg = (pg, None) \<and>
   loadCompanyData host Rejected pg
     = (pg\<lparr>warnings := warnings pg @ [''Could not load company data:'']\<rparr>, None)"
proof -
  have empty: "loadCompanyData host (Response True (Some (JObj []))) pg = (pg, None)"
    by (simp add: loadCompanyData_def fetchAndPopulate_def tryCatch_def populateCompanyData_def
          whenPresent_def getProp_def truthy_def)
  have other: "loadCompanyData host (Response False parsed) pg = (pg, None)"
    "loadCompanyData host Rejected pg
       = (pg\<lparr>warnings := warnings pg @ [''Could not load company data:'']\<rparr>, None)"
    by (simp_all add: loadCompanyData_def fetchAndPopulate_def tryCatch_def)
  show ?thesis
    using populate_keeps_badge [of data host] populate_keeps_benefits [of data host]
      populate_keeps_market [of data host] empty other
    by (simp add: load_dom load_no_error keeps_def)
qed

theorem hydration_skips_absent_fields_witness:
  "absent (JObj [(''benefits'', JObj [(''cost_reduction'', JStr ''30%'')])]) ''achievements'' \<and>
   absent (JObj [(''benefits'', JObj [(''cost_reduction'', JStr ''30%'')])]) ''market_data'' \<and>
   loadCompanyData \<lparr>positive = (\<lambda>v. Inr False), domString = (\<lambda>v. Inr [])\<rparr>
     (Response True (Some (JObj [(''benefits'', JObj [(''cost_reduction'', JStr ''30%'')])])))
     \<lparr>dom = \<lparr>achievementsBadge = Some (Some ''Award''), benefitCost = Some ''-'',
               benefitEnergy = Some ''-'', benefitCarbon = None, marketTam = Some ''$1B'',
               marketSam = None, marketSom = None\<rparr>,
        warnings = []\<rparr>
   = (\<lparr>dom = \<lparr>achievementsBadge = Some (Some ''Award''), benefitCost = Some ''30%'',
                benefitEnergy = Some ''-'', benefitCarbon = None, marketTam = Some ''$1B'',
                marketSam = None, marketSom = None\<rparr>,
         warnings = []\<rparr>, None)"
  using hydration_skips_absent_fields [of
     "\<lparr>positive = (\<lambda>v. Inr False), domString = (\<lambda>v. Inr [])\<rparr>"
     "Response True (Some (JObj [(''benefits'', JObj [(''cost_reduction'', JStr ''30%'')])]))"
     "\<lparr>dom = \<lparr>achievementsBadge = Some (Some ''Award''), benefitCost = Some ''-'',
               benefitEnergy = Some ''-'', benefitCarbon = None, marketTam = Some ''$1B'',
               marketSam = None, marketSom = None\<rparr>,
        warnings = []\<rparr>"
     "JObj [(''benefits'', JObj [(''cost_reduction'', JStr ''30%'')])]" None]
  by (simp add: absent_def loadCompanyData_def fetchAndPopulate_def tryCatch_def
        populateCompanyData_def whenPresent_def getProp_def truthy_def updateBenefits_def
        hydrate_def toText_def Let_def)


end
